theory Spec2Isabelle
  imports Complex_Main
begin

section \<open>Data model (src/src/db/schema.ts)\<close>

text \<open>
  The two tables the geofence evaluation touches. A nullable column is an \<open>option\<close>;
  \<open>real\<close> columns and JavaScript numbers are modelled as mathematical reals (rounding
  and NaN of IEEE doubles are outside the model); text columns are strings. Field names
  are the column names, prefixed by the table since several tables share them. The
  columns of a geofence that the evaluation never reads (type, color, icon, createdAt,
  updatedAt) are left out.
\<close>

record schedule =
  days :: "int list"
  startTime :: string
  endTime :: string

record geofence =
  gf_id :: string
  gf_userId :: string
  gf_childId :: "string option"
  gf_familyId :: string
  gf_name :: string
  gf_latitude :: real
  gf_longitude :: real
  gf_radius :: int
  gf_notifyEnter :: "bool option"
  gf_notifyExit :: "bool option"
  gf_isActive :: "bool option"
  gf_schedule :: "schedule option"

datatype eventType = Enter | Exit | Dwell

record geofenceEvent =
  ev_id :: string
  ev_geofenceId :: string
  ev_childId :: string
  ev_eventType :: eventType
  ev_latitude :: real
  ev_longitude :: real
  ev_timestamp :: int

text \<open>
  The store: the rows of each table in insertion order. Every other table of the
  database is the extension part of the record scheme.
\<close>

record store =
  geofences :: "geofence list"
  geofenceEvents :: "geofenceEvent list"

text \<open>The part of \<open>req.user\<close> (src/src/middleware/auth.ts) that the handler reads.\<close>

record user =
  u_id :: string
  u_familyId :: "string option"

text \<open>
  A JavaScript \<open>Date\<close>: the instant (\<open>getTime\<close>, milliseconds since the epoch) and
  its local projections. The handler's readings of the clock during one request are
  modelled as one instant.
\<close>

record date =
  getTime :: int
  getDay :: nat
  getHours :: nat
  getMinutes :: nat

text \<open>
  The \<open>timestamp\<close> column of an event is an integer column of mode \<open>timestamp\<close>: it
  holds a \<open>Date\<close> as whole seconds since the epoch, so \<open>ev_timestamp\<close> is in seconds.
\<close>

definition storedTimestamp :: "date \<Rightarrow> int" where
  "storedTimestamp d = getTime d div 1000"

section \<open>Spatial predicate (src/src/utils/codes.ts, second part)\<close>

definition toRad :: "real \<Rightarrow> real" where
  "toRad deg = deg * (pi / 180)"

text \<open>\<open>Math.atan2\<close> on reals.\<close>

definition atan2 :: "real \<Rightarrow> real \<Rightarrow> real" where
  "atan2 y x =
     (if 0 < x then arctan (y / x)
      else if x < 0 then (if 0 \<le> y then arctan (y / x) + pi else arctan (y / x) - pi)
      else if 0 < y then pi / 2
      else if y < 0 then - (pi / 2)
      else 0)"

definition calculateDistance :: "real \<Rightarrow> real \<Rightarrow> real \<Rightarrow> real \<Rightarrow> real" where
  "calculateDistance lat1 lon1 lat2 lon2 =
     (let R = 6371000;
          dLat = toRad (lat2 - lat1);
          dLon = toRad (lon2 - lon1);
          a = sin (dLat / 2) * sin (dLat / 2) +
              cos (toRad lat1) * cos (toRad lat2) * sin (dLon / 2) * sin (dLon / 2);
          c = 2 * atan2 (sqrt a) (sqrt (1 - a))
      in R * c)"

definition isInsideGeofence :: "real \<Rightarrow> real \<Rightarrow> real \<Rightarrow> real \<Rightarrow> real \<Rightarrow> bool" where
  "isInsideGeofence pointLat pointLon geofenceLat geofenceLon radiusMeters =
     (let distance = calculateDistance pointLat pointLon geofenceLat geofenceLon
      in distance \<le> radiusMeters)"

section \<open>Schedule check (src/src/utils/codes.ts, second part)\<close>

text \<open>\<open>String(n)\<close> of a non-negative integer: its decimal digits.\<close>

definition digit :: "nat \<Rightarrow> char" where
  "digit d = ''0123456789'' ! d"

fun String_of :: "nat \<Rightarrow> string" where
  "String_of n = (if n < 10 then [digit n] else String_of (n div 10) @ [digit (n mod 10)])"

declare String_of.simps [simp del]

text \<open>\<open>s.padStart(targetLength, c)\<close> with a one-character pad string.\<close>

definition padStart :: "nat \<Rightarrow> char \<Rightarrow> string \<Rightarrow> string" where
  "padStart targetLength c s = replicate (targetLength - length s) c @ s"

text \<open>
  The relational operators of JavaScript on strings: lexicographic on the code units,
  a proper prefix being smaller.
\<close>

fun str_le :: "string \<Rightarrow> string \<Rightarrow> bool" where
  "str_le [] ys = True"
| "str_le (x # xs) [] = False"
| "str_le (x # xs) (y # ys) =
     ((of_char x :: nat) < of_char y \<or> (x = y \<and> str_le xs ys))"

definition str_ge :: "string \<Rightarrow> string \<Rightarrow> bool" where
  "str_ge xs ys = str_le ys xs"

definition currentTime :: "date \<Rightarrow> string" where
  "currentTime now =
     padStart 2 (CHR ''0'') (String_of (getHours now)) @ '':'' @
     padStart 2 (CHR ''0'') (String_of (getMinutes now))"

definition isGeofenceActiveNow :: "schedule option \<Rightarrow> date \<Rightarrow> bool" where
  "isGeofenceActiveNow sched now =
     (case sched of
        None \<Rightarrow> True
      | Some sc \<Rightarrow>
          (if int (getDay now) \<notin> set (days sc) then False
           else str_ge (currentTime now) (startTime sc) \<and> str_le (currentTime now) (endTime sc)))"

section \<open>Position check (src/src/routes/geofence.ts, POST /check)\<close>

text \<open>
  Truthiness of a nullable string, as in \<open>!user.familyId\<close> and \<open>!g.childId\<close>:
  \<open>null\<close> and the empty string are falsy.
\<close>

definition truthy :: "string option \<Rightarrow> bool" where
  "truthy v = (case v of None \<Rightarrow> False | Some str \<Rightarrow> str \<noteq> [])"

text \<open>The statements the handler sends to the database, in order.\<close>

datatype tableName = Geofences | GeofenceEvents

datatype dbOp = Select tableName | Insert tableName | Update tableName | Delete tableName

text \<open>An element of the \<open>events\<close> array of the response, and the response body.\<close>

record responseEvent =
  re_geofenceId :: string
  re_geofenceName :: string
  re_eventType :: eventType
  re_timestamp :: int

record checkResponse =
  events :: "responseEvent list"
  currentZones :: "string list"

text \<open>
  \<open>db.query.geofences.findMany\<close> with the family and \<open>isActive\<close> conditions: the
  matching rows in table order.
\<close>

definition familyGeofences :: "string \<Rightarrow> 'a store_scheme \<Rightarrow> geofence list" where
  "familyGeofences familyId s =
     filter (\<lambda>g. gf_familyId g = familyId \<and> gf_isActive g = Some True) (geofences s)"

definition applicableGeofences :: "user \<Rightarrow> geofence list \<Rightarrow> geofence list" where
  "applicableGeofences u gs =
     filter (\<lambda>g. \<not> truthy (gf_childId g) \<or> gf_childId g = Some (u_id u)) gs"

definition activeGeofences :: "date \<Rightarrow> geofence list \<Rightarrow> geofence list" where
  "activeGeofences now gs = filter (\<lambda>g. isGeofenceActiveNow (gf_schedule g) now) gs"

text \<open>
  \<open>db.query.geofenceEvents.findMany\<close>: the child's events, newest first, cut at
  \<open>limit\<close>. SQL leaves the order of rows of equal timestamp (events of one second)
  open; the model keeps them in insertion order.
\<close>

definition lastEvents :: "user \<Rightarrow> nat \<Rightarrow> 'a store_scheme \<Rightarrow> geofenceEvent list" where
  "lastEvents u limit s =
     take limit
       (sort_key (\<lambda>e. - ev_timestamp e)
          (filter (\<lambda>e. ev_childId e = u_id u) (geofenceEvents s)))"

text \<open>The loop that fills \<open>lastStateMap\<close>: the first enter or exit event of each geofence.\<close>

fun lastStateMap :: "geofenceEvent list \<Rightarrow> (string \<rightharpoonup> eventType) \<Rightarrow> (string \<rightharpoonup> eventType)" where
  "lastStateMap [] m = m"
| "lastStateMap (event # rest) m =
     lastStateMap rest
       (if m (ev_geofenceId event) = None \<and>
           (ev_eventType event = Enter \<or> ev_eventType event = Exit)
        then m(ev_geofenceId event \<mapsto> ev_eventType event)
        else m)"

text \<open>
  The state of the main loop: the store, the two arrays of the response, the number of
  ids drawn from \<open>generateId\<close> (a random source, given as the sequence of its results)
  and the statements sent so far.
\<close>

record 'a loop =
  l_store :: "'a store_scheme"
  l_events :: "responseEvent list"
  l_currentZones :: "string list"
  l_drawn :: nat
  l_ops :: "dbOp list"

definition insertGeofenceEvent :: "geofenceEvent \<Rightarrow> 'a store_scheme \<Rightarrow> 'a store_scheme" where
  "insertGeofenceEvent event s = s\<lparr>geofenceEvents := geofenceEvents s @ [event]\<rparr>"

text \<open>
  The block both branches of the loop body share: build the event row, insert it, push
  its summary on \<open>events\<close>. The summary carries the \<open>Date\<close> itself (milliseconds),
  the row what the column keeps of it (seconds).
\<close>

definition emitEvent ::
  "user \<Rightarrow> real \<Rightarrow> real \<Rightarrow> date \<Rightarrow> (nat \<Rightarrow> string) \<Rightarrow> geofence \<Rightarrow> eventType \<Rightarrow> 'a loop \<Rightarrow> 'a loop" where
  "emitEvent u latitude longitude now generateId g ty l =
     (let eventId = generateId (l_drawn l);
          event = \<lparr>ev_id = eventId, ev_geofenceId = gf_id g, ev_childId = u_id u,
                   ev_eventType = ty, ev_latitude = latitude, ev_longitude = longitude,
                   ev_timestamp = storedTimestamp now\<rparr>
      in l\<lparr>l_store := insertGeofenceEvent event (l_store l),
            l_events := l_events l @
              [\<lparr>re_geofenceId = gf_id g, re_geofenceName = gf_name g,
                re_eventType = ty, re_timestamp = getTime now\<rparr>],
            l_drawn := Suc (l_drawn l),
            l_ops := l_ops l @ [Insert GeofenceEvents]\<rparr>)"

definition checkStep ::
  "user \<Rightarrow> real \<Rightarrow> real \<Rightarrow> date \<Rightarrow> (nat \<Rightarrow> string) \<Rightarrow> (string \<rightharpoonup> eventType) \<Rightarrow>
   geofence \<Rightarrow> 'a loop \<Rightarrow> 'a loop" where
  "checkStep u latitude longitude now generateId lsm g l =
     (let isInside = isInsideGeofence latitude longitude (gf_latitude g) (gf_longitude g)
                       (real_of_int (gf_radius g));
          lastState = lsm (gf_id g)
      in if isInside then
           (let l1 = l\<lparr>l_currentZones := l_currentZones l @ [gf_name g]\<rparr>
            in if lastState \<noteq> Some Enter \<and> gf_notifyEnter g = Some True
               then emitEvent u latitude longitude now generateId g Enter l1
               else l1)
         else
           (if lastState = Some Enter \<and> gf_notifyExit g = Some True
            then emitEvent u latitude longitude now generateId g Exit l
            else l))"

fun checkLoop ::
  "user \<Rightarrow> real \<Rightarrow> real \<Rightarrow> date \<Rightarrow> (nat \<Rightarrow> string) \<Rightarrow> (string \<rightharpoonup> eventType) \<Rightarrow>
   geofence list \<Rightarrow> 'a loop \<Rightarrow> 'a loop" where
  "checkLoop u latitude longitude now generateId lsm [] l = l"
| "checkLoop u latitude longitude now generateId lsm (g # gs) l =
     checkLoop u latitude longitude now generateId lsm gs
       (checkStep u latitude longitude now generateId lsm g l)"

text \<open>
  The handler: the response body, the store afterwards and the statements sent. The
  route's validator (latitude within -90..90, longitude within -180..180) runs before the
  handler and is not part of it. The \<open>catch\<close> branch answers a storage exception;
  the store of the model never raises.
\<close>

definition check ::
  "user \<Rightarrow> real \<Rightarrow> real \<Rightarrow> date \<Rightarrow> (nat \<Rightarrow> string) \<Rightarrow> 'a store_scheme \<Rightarrow>
   checkResponse \<times> 'a store_scheme \<times> dbOp list" where
  "check u latitude longitude now generateId s =
     (if \<not> truthy (u_familyId u) then (\<lparr>events = [], currentZones = []\<rparr>, s, [])
      else
        let fam = familyGeofences (the (u_familyId u)) s;
            applicable = applicableGeofences u fam;
            active = activeGeofences now applicable;
            lastEvs = lastEvents u (length active) s;
            lsm = lastStateMap lastEvs Map.empty;
            l = checkLoop u latitude longitude now generateId lsm active
                  \<lparr>l_store = s, l_events = [], l_currentZones = [], l_drawn = 0,
                   l_ops = [Select Geofences, Select GeofenceEvents]\<rparr>
        in (\<lparr>events = l_events l, currentZones = l_currentZones l\<rparr>, l_store l, l_ops l))"

text \<open>The three parts of the handler's outcome.\<close>

definition response :: "checkResponse \<times> 'a store_scheme \<times> dbOp list \<Rightarrow> checkResponse" where
  "response r = fst r"

definition storeAfter :: "checkResponse \<times> 'a store_scheme \<times> dbOp list \<Rightarrow> 'a store_scheme" where
  "storeAfter r = fst (snd r)"

definition statements :: "checkResponse \<times> 'a store_scheme \<times> dbOp list \<Rightarrow> dbOp list" where
  "statements r = snd (snd r)"

section \<open>The loop, read functionally\<close>

text \<open>
  What one pass of the loop body decides for a geofence, given the reconstructed
  \<open>lastStateMap\<close>: whether the point is inside, and which event (if any) it emits.
\<close>

definition inside :: "real \<Rightarrow> real \<Rightarrow> geofence \<Rightarrow> bool" where
  "inside latitude longitude g =
     isInsideGeofence latitude longitude (gf_latitude g) (gf_longitude g)
       (real_of_int (gf_radius g))"

definition transition :: "(string \<rightharpoonup> eventType) \<Rightarrow> real \<Rightarrow> real \<Rightarrow> geofence \<Rightarrow> eventType option" where
  "transition lsm latitude longitude g =
     (if inside latitude longitude g
      then (if lsm (gf_id g) \<noteq> Some Enter \<and> gf_notifyEnter g = Some True then Some Enter else None)
      else (if lsm (gf_id g) = Some Enter \<and> gf_notifyExit g = Some True then Some Exit else None))"

definition eventRow ::
  "user \<Rightarrow> real \<Rightarrow> real \<Rightarrow> date \<Rightarrow> string \<Rightarrow> geofence \<Rightarrow> eventType \<Rightarrow> geofenceEvent" where
  "eventRow u latitude longitude now eventId g ty =
     \<lparr>ev_id = eventId, ev_geofenceId = gf_id g, ev_childId = u_id u, ev_eventType = ty,
      ev_latitude = latitude, ev_longitude = longitude, ev_timestamp = storedTimestamp now\<rparr>"

definition eventSummary :: "date \<Rightarrow> geofence \<Rightarrow> eventType \<Rightarrow> responseEvent" where
  "eventSummary now g ty =
     \<lparr>re_geofenceId = gf_id g, re_geofenceName = gf_name g, re_eventType = ty,
      re_timestamp = getTime now\<rparr>"

text \<open>The rows the loop inserts and the summaries it returns, for a list of geofences.\<close>

fun newRows ::
  "user \<Rightarrow> real \<Rightarrow> real \<Rightarrow> date \<Rightarrow> (nat \<Rightarrow> string) \<Rightarrow> (string \<rightharpoonup> eventType) \<Rightarrow> nat \<Rightarrow>
   geofence list \<Rightarrow> geofenceEvent list" where
  "newRows u latitude longitude now generateId lsm k [] = []"
| "newRows u latitude longitude now generateId lsm k (g # gs) =
     (case transition lsm latitude longitude g of
        None \<Rightarrow> newRows u latitude longitude now generateId lsm k gs
      | Some ty \<Rightarrow>
          eventRow u latitude longitude now (generateId k) g ty #
          newRows u latitude longitude now generateId lsm (Suc k) gs)"

fun newSummaries ::
  "date \<Rightarrow> (string \<rightharpoonup> eventType) \<Rightarrow> real \<Rightarrow> real \<Rightarrow> geofence list \<Rightarrow> responseEvent list" where
  "newSummaries now lsm latitude longitude [] = []"
| "newSummaries now lsm latitude longitude (g # gs) =
     (case transition lsm latitude longitude g of
        None \<Rightarrow> newSummaries now lsm latitude longitude gs
      | Some ty \<Rightarrow> eventSummary now g ty # newSummaries now lsm latitude longitude gs)"

text \<open>The geofences the loop runs over, and the map it consults.\<close>

definition evaluated :: "user \<Rightarrow> date \<Rightarrow> 'a store_scheme \<Rightarrow> geofence list" where
  "evaluated u now s =
     activeGeofences now (applicableGeofences u (familyGeofences (the (u_familyId u)) s))"

definition reconstructed :: "user \<Rightarrow> date \<Rightarrow> 'a store_scheme \<Rightarrow> (string \<rightharpoonup> eventType)" where
  "reconstructed u now s =
     lastStateMap (lastEvents u (length (evaluated u now s)) s) Map.empty"

section \<open>What the specification speaks of\<close>

text \<open>
  The last known membership state of a (geofence, child) pair, in the specification's
  words: read the pair's events of the whole log in descending timestamp order and take
  the first whose type is enter or exit.
\<close>

definition spec_lastKnownState :: "string \<Rightarrow> string \<Rightarrow> geofenceEvent list \<Rightarrow> eventType option" where
  "spec_lastKnownState geofenceId childId eventLog =
     map_option ev_eventType
       (find (\<lambda>e. ev_eventType e = Enter \<or> ev_eventType e = Exit)
          (sort_key (\<lambda>e. - ev_timestamp e)
             (filter (\<lambda>e. ev_geofenceId e = geofenceId \<and> ev_childId e = childId) eventLog)))"

text \<open>The "HH:MM" string of a time of day, and its minute of the day.\<close>

definition hhmm :: "nat \<Rightarrow> nat \<Rightarrow> string" where
  "hhmm h m = [digit (h div 10), digit (h mod 10), CHR '':'', digit (m div 10), digit (m mod 10)]"

definition minuteOfDay :: "nat \<Rightarrow> nat \<Rightarrow> nat" where
  "minuteOfDay h m = 60 * h + m"

text \<open>The store without one geofence row.\<close>

definition withoutGeofence :: "geofence \<Rightarrow> 'a store_scheme \<Rightarrow> 'a store_scheme" where
  "withoutGeofence g s = s\<lparr>geofences := removeAll g (geofences s)\<rparr>"

section \<open>Concrete scenarios\<close>

text \<open>
  A family-wide circle on the zero meridian as \<open>POST /\<close> stores it when the request
  leaves the optional fields out, a child of the family, a weekday noon at second
  \<open>t\<close>, and the ids drawn while serving the request of a given number.
\<close>

definition zone :: "string \<Rightarrow> string \<Rightarrow> real \<Rightarrow> int \<Rightarrow> geofence" where
  "zone gid nm lat r =
     \<lparr>gf_id = gid, gf_userId = ''mum'', gf_childId = None, gf_familyId = ''fam'',
      gf_name = nm, gf_latitude = lat, gf_longitude = 0, gf_radius = r,
      gf_notifyEnter = Some True, gf_notifyExit = Some True, gf_isActive = Some True,
      gf_schedule = None\<rparr>"

definition kid :: user where
  "kid = \<lparr>u_id = ''kid'', u_familyId = Some ''fam''\<rparr>"

definition orphan :: user where
  "orphan = \<lparr>u_id = ''kid'', u_familyId = None\<rparr>"

definition noon :: "int \<Rightarrow> date" where
  "noon t = \<lparr>getTime = 1000 * t, getDay = 3, getHours = 12, getMinutes = 0\<rparr>"

definition ids :: "nat \<Rightarrow> nat \<Rightarrow> string" where
  "ids request k = String_of request @ ''-'' @ String_of k"

text \<open>
  Two overlapping zones 0.01 degrees of latitude (about 1112 m) apart, each of radius
  1000 m.
\<close>

definition south :: geofence where
  "south = zone ''south'' ''South'' 0 1000"

definition north :: geofence where
  "north = zone ''north'' ''North'' (1 / 100) 1000"

definition twoZones :: store where
  "twoZones = \<lparr>geofences = [south, north], geofenceEvents = []\<rparr>"

text \<open>
  The child walks along the meridian: in South only (latitude -0.005), into the overlap
  (0.005), in North only (0.015), back into the overlap (0.005).
\<close>

definition walk1 :: store where
  "walk1 = storeAfter (check kid (- 1 / 200) 0 (noon 1) (ids 1) twoZones)"

definition walk2 :: store where
  "walk2 = storeAfter (check kid (1 / 200) 0 (noon 2) (ids 2) walk1)"

definition walk3 :: store where
  "walk3 = storeAfter (check kid (3 / 200) 0 (noon 3) (ids 3) walk2)"

definition walk4 :: store where
  "walk4 = storeAfter (check kid (1 / 200) 0 (noon 4) (ids 4) walk3)"




text \<open>
  Variants of the zone at the origin: with a school-hours schedule, for another child,
  with enter notifications off.
\<close>

definition school :: geofence where
  "school = (zone ''school'' ''School'' 0 100)
     \<lparr>gf_schedule := Some \<lparr>days = [1, 2, 3, 4, 5], startTime = ''08:00'', endTime = ''16:00''\<rparr>\<rparr>"

definition sisters :: geofence where
  "sisters = (zone ''club'' ''Club'' 0 100)\<lparr>gf_childId := Some ''sis''\<rparr>"

definition quiet :: geofence where
  "quiet = (zone ''park'' ''Park'' 0 100)\<lparr>gf_notifyEnter := Some False\<rparr>"

definition sunday :: date where
  "sunday = \<lparr>getTime = 7, getDay = 0, getHours = 12, getMinutes = 0\<rparr>"

section \<open>Geometry\<close>

lemma calculateDistance_same: "calculateDistance la lo la lo = 0"
  by (simp add: calculateDistance_def toRad_def atan2_def)

lemma atan2_sin_cos:
  assumes "0 \<le> x" "x < pi / 2"
  shows "atan2 (sin x) (cos x) = x"
proof -
  have c: "0 < cos x" using assms by (intro cos_gt_zero_pi) auto
  have "arctan (sin x / cos x) = arctan (tan x)" by (simp add: tan_def)
  also have "\<dots> = x" using assms by (intro arctan_tan) auto
  finally show ?thesis using c by (simp add: atan2_def)
qed

text \<open>Along a meridian the haversine distance is the arc of the latitude difference.\<close>

lemma calculateDistance_meridian:
  assumes "\<bar>lat2 - lat1\<bar> < 180"
  shows "calculateDistance lat1 lon lat2 lon = 6371000 * \<bar>toRad (lat2 - lat1)\<bar>"
proof -
  define d where "d = toRad (lat2 - lat1) / 2"
  have dlt: "\<bar>d\<bar> < pi / 2"
  proof -
    have "\<bar>d\<bar> = \<bar>lat2 - lat1\<bar> * (pi / 360)"
      unfolding d_def toRad_def by (simp add: abs_mult)
    also have "\<dots> < 180 * (pi / 360)"
      using assms pi_gt_zero by (intro mult_strict_right_mono) auto
    finally show ?thesis by simp
  qed
  have cpos: "0 < cos d" using dlt by (intro cos_gt_zero_pi) auto
  have s: "sqrt (sin d * sin d) = sin \<bar>d\<bar>"
  proof -
    have "sqrt (sin d * sin d) = \<bar>sin d\<bar>" by simp
    also have "\<dots> = sin \<bar>d\<bar>"
    proof (cases "0 \<le> d")
      case True
      then have "0 \<le> sin d" using dlt by (intro sin_ge_zero) auto
      then show ?thesis using True by simp
    next
      case False
      then have "0 \<le> sin (- d)" using dlt by (intro sin_ge_zero) auto
      then show ?thesis using False by simp
    qed
    finally show ?thesis .
  qed
  have "1 - sin d * sin d = cos d * cos d"
    using sin_cos_squared_add [of d] by (simp add: power2_eq_square algebra_simps)
  then have c: "sqrt (1 - sin d * sin d) = cos \<bar>d\<bar>"
    using cpos by simp
  have a: "atan2 (sin \<bar>d\<bar>) (cos \<bar>d\<bar>) = \<bar>d\<bar>"
    using dlt by (intro atan2_sin_cos) auto
  have dd: "toRad (lat2 - lat1) / 2 = d" by (simp add: d_def)
  have "calculateDistance lat1 lon lat2 lon =
          6371000 * (2 * atan2 (sqrt (sin d * sin d)) (sqrt (1 - sin d * sin d)))"
    unfolding calculateDistance_def Let_def dd by (simp add: toRad_def)
  also have "\<dots> = 6371000 * (2 * \<bar>d\<bar>)"
    using s c a by simp
  finally show ?thesis by (simp add: d_def)
qed

lemma zone_sel:
  "gf_id (zone gid nm lat r) = gid" "gf_name (zone gid nm lat r) = nm"
  "gf_latitude (zone gid nm lat r) = lat" "gf_longitude (zone gid nm lat r) = 0"
  "gf_radius (zone gid nm lat r) = r"
  by (simp_all add: zone_def)

lemma inside_zone:
  assumes "\<bar>lat - la\<bar> < 180"
  shows "inside la 0 (zone gid nm lat r) \<longleftrightarrow> 6371000 * (\<bar>lat - la\<bar> * pi / 180) \<le> real_of_int r"
proof -
  have eq: "calculateDistance la 0 lat 0 = 6371000 * (\<bar>lat - la\<bar> * pi / 180)"
    using calculateDistance_meridian [OF assms, of 0] by (simp add: toRad_def abs_mult)
  show ?thesis
    by (simp only: inside_def isInsideGeofence_def Let_def zone_sel eq)
qed

lemma inside_zone_near:
  assumes "\<bar>lat - la\<bar> < 180" and "6371000 * \<bar>lat - la\<bar> * 4 \<le> 180 * real_of_int r"
  shows "inside la 0 (zone gid nm lat r)"
proof -
  have "6371000 * \<bar>lat - la\<bar> * pi \<le> 6371000 * \<bar>lat - la\<bar> * 4"
    using pi_less_4 by (intro mult_left_mono) auto
  then have "6371000 * \<bar>lat - la\<bar> * pi \<le> 180 * real_of_int r"
    using assms(2) by linarith
  then show ?thesis using assms(1) by (simp add: inside_zone)
qed

lemma inside_zone_far:
  assumes "\<bar>lat - la\<bar> < 180" and "180 * real_of_int r < 6371000 * \<bar>lat - la\<bar> * 2"
  shows "\<not> inside la 0 (zone gid nm lat r)"
proof -
  have "6371000 * \<bar>lat - la\<bar> * 2 \<le> 6371000 * \<bar>lat - la\<bar> * pi"
    using pi_ge_two by (intro mult_left_mono) auto
  then have "180 * real_of_int r < 6371000 * \<bar>lat - la\<bar> * pi"
    using assms(2) by linarith
  then show ?thesis using assms(1) by (simp add: inside_zone)
qed

lemma walk_geometry:
  "inside (- 1 / 200) 0 south" "\<not> inside (- 1 / 200) 0 north"
  "inside (1 / 200) 0 south" "inside (1 / 200) 0 north"
  "\<not> inside (3 / 200) 0 south" "inside (3 / 200) 0 north"
  unfolding south_def north_def
  by (simp_all add: inside_zone_near inside_zone_far)


section \<open>The loop computes the functional reading\<close>

lemma checkStep_transition:
  "checkStep u la lo now gen lsm g l =
     (let l1 = (if inside la lo g then l\<lparr>l_currentZones := l_currentZones l @ [gf_name g]\<rparr> else l)
      in case transition lsm la lo g of
           None \<Rightarrow> l1
         | Some ty \<Rightarrow> emitEvent u la lo now gen g ty l1)"
  by (simp add: checkStep_def transition_def inside_def Let_def)

lemma checkLoop_zones:
  "l_currentZones (checkLoop u la lo now gen lsm gs l) =
     l_currentZones l @ map gf_name (filter (inside la lo) gs)"
  by (induction gs arbitrary: l)
     (auto simp: checkStep_transition emitEvent_def Let_def split: option.splits)

lemma checkLoop_events:
  "l_events (checkLoop u la lo now gen lsm gs l) =
     l_events l @ newSummaries now lsm la lo gs"
  by (induction gs arbitrary: l)
     (auto simp: checkStep_transition emitEvent_def eventSummary_def Let_def split: option.splits)

lemma checkLoop_store:
  "l_store (checkLoop u la lo now gen lsm gs l) =
     (l_store l)\<lparr>geofenceEvents :=
        geofenceEvents (l_store l) @ newRows u la lo now gen lsm (l_drawn l) gs\<rparr>"
  by (induction gs arbitrary: l)
     (auto simp: checkStep_transition emitEvent_def eventRow_def insertGeofenceEvent_def Let_def
           split: option.splits)

lemma checkLoop_ops:
  "l_ops (checkLoop u la lo now gen lsm gs l) =
     l_ops l @ replicate (length (newRows u la lo now gen lsm (l_drawn l) gs)) (Insert GeofenceEvents)"
  by (induction gs arbitrary: l)
     (auto simp: checkStep_transition emitEvent_def Let_def replicate_app_Cons_same
           split: option.splits)

lemma check_family:
  assumes "truthy (u_familyId u)"
  shows "response (check u la lo now gen s) =
           \<lparr>events = newSummaries now (reconstructed u now s) la lo (evaluated u now s),
            currentZones = map gf_name (filter (inside la lo) (evaluated u now s))\<rparr>"
    and "storeAfter (check u la lo now gen s) =
           s\<lparr>geofenceEvents := geofenceEvents s @
                newRows u la lo now gen (reconstructed u now s) 0 (evaluated u now s)\<rparr>"
    and "statements (check u la lo now gen s) =
           [Select Geofences, Select GeofenceEvents] @
           replicate (length (newRows u la lo now gen (reconstructed u now s) 0 (evaluated u now s)))
             (Insert GeofenceEvents)"
  using assms
  by (simp_all add: check_def response_def storeAfter_def statements_def Let_def
        checkLoop_zones checkLoop_events checkLoop_store checkLoop_ops
        evaluated_def reconstructed_def)

section \<open>The scenarios, evaluated\<close>

lemma kid_family: "truthy (u_familyId kid)" "the (u_familyId kid) = ''fam''" "u_id kid = ''kid''"
  by (simp_all add: kid_def truthy_def)

lemma zone_evaluated:
  "isGeofenceActiveNow (gf_schedule (zone gid nm lat r)) now"
  "gf_familyId (zone gid nm lat r) = ''fam''"
  "gf_isActive (zone gid nm lat r) = Some True"
  "\<not> truthy (gf_childId (zone gid nm lat r))"
  "gf_notifyEnter (zone gid nm lat r) = Some True"
  "gf_notifyExit (zone gid nm lat r) = Some True"
  by (simp_all add: zone_def isGeofenceActiveNow_def truthy_def)

lemma evaluated_zones:
  "evaluated kid now \<lparr>geofences = [zone g1 n1 lat1 r1, zone g2 n2 lat2 r2], geofenceEvents = evs\<rparr> =
     [zone g1 n1 lat1 r1, zone g2 n2 lat2 r2]"
  by (simp add: evaluated_def activeGeofences_def applicableGeofences_def familyGeofences_def
        kid_family zone_evaluated)

lemmas scenario_simps =
  check_family [OF kid_family(1)] evaluated_zones reconstructed_def lastEvents_def kid_family
  transition_def zone_evaluated zone_sel eventRow_def eventSummary_def noon_def ids_def
  storedTimestamp_def
  String_of.simps digit_def

lemma walk1_eq:
  "walk1 = \<lparr>geofences = [south, north], geofenceEvents =
     [\<lparr>ev_id = ''1-0'', ev_geofenceId = ''south'', ev_childId = ''kid'', ev_eventType = Enter,
       ev_latitude = - 1 / 200, ev_longitude = 0, ev_timestamp = 1\<rparr>]\<rparr>"
  using walk_geometry
  unfolding walk1_def twoZones_def south_def north_def
  by (simp add: scenario_simps)

lemma walk2_eq:
  "walk2 = \<lparr>geofences = [south, north], geofenceEvents =
     [\<lparr>ev_id = ''1-0'', ev_geofenceId = ''south'', ev_childId = ''kid'', ev_eventType = Enter,
       ev_latitude = - 1 / 200, ev_longitude = 0, ev_timestamp = 1\<rparr>,
      \<lparr>ev_id = ''2-0'', ev_geofenceId = ''north'', ev_childId = ''kid'', ev_eventType = Enter,
       ev_latitude = 1 / 200, ev_longitude = 0, ev_timestamp = 2\<rparr>]\<rparr>"
  using walk_geometry
  unfolding walk2_def walk1_eq south_def north_def
  by (simp add: scenario_simps)

lemma walk3_eq:
  "walk3 = \<lparr>geofences = [south, north], geofenceEvents =
     [\<lparr>ev_id = ''1-0'', ev_geofenceId = ''south'', ev_childId = ''kid'', ev_eventType = Enter,
       ev_latitude = - 1 / 200, ev_longitude = 0, ev_timestamp = 1\<rparr>,
      \<lparr>ev_id = ''2-0'', ev_geofenceId = ''north'', ev_childId = ''kid'', ev_eventType = Enter,
       ev_latitude = 1 / 200, ev_longitude = 0, ev_timestamp = 2\<rparr>,
      \<lparr>ev_id = ''3-0'', ev_geofenceId = ''south'', ev_childId = ''kid'', ev_eventType = Exit,
       ev_latitude = 3 / 200, ev_longitude = 0, ev_timestamp = 3\<rparr>]\<rparr>"
  using walk_geometry
  unfolding walk3_def walk2_eq south_def north_def
  by (simp add: scenario_simps)

lemma walk4_eq:
  "walk4 = \<lparr>geofences = [south, north], geofenceEvents =
     [\<lparr>ev_id = ''1-0'', ev_geofenceId = ''south'', ev_childId = ''kid'', ev_eventType = Enter,
       ev_latitude = - 1 / 200, ev_longitude = 0, ev_timestamp = 1\<rparr>,
      \<lparr>ev_id = ''2-0'', ev_geofenceId = ''north'', ev_childId = ''kid'', ev_eventType = Enter,
       ev_latitude = 1 / 200, ev_longitude = 0, ev_timestamp = 2\<rparr>,
      \<lparr>ev_id = ''3-0'', ev_geofenceId = ''south'', ev_childId = ''kid'', ev_eventType = Exit,
       ev_latitude = 3 / 200, ev_longitude = 0, ev_timestamp = 3\<rparr>,
      \<lparr>ev_id = ''4-0'', ev_geofenceId = ''south'', ev_childId = ''kid'', ev_eventType = Enter,
       ev_latitude = 1 / 200, ev_longitude = 0, ev_timestamp = 4\<rparr>]\<rparr>"
  using walk_geometry
  unfolding walk4_def walk3_eq south_def north_def
  by (simp add: scenario_simps)

lemma walk5_response:
  "response (check kid (1 / 200) 0 (noon 5) (ids 5) walk4) =
     \<lparr>events = [\<lparr>re_geofenceId = ''north'', re_geofenceName = ''North'', re_eventType = Enter,
                  re_timestamp = 5000\<rparr>],
      currentZones = [''South'', ''North'']\<rparr>"
  using walk_geometry
  unfolding walk4_eq south_def north_def
  by (simp add: scenario_simps)

lemma walk4_response:
  "response (check kid (1 / 200) 0 (noon 4) (ids 4) walk3) =
     \<lparr>events = [\<lparr>re_geofenceId = ''south'', re_geofenceName = ''South'', re_eventType = Enter,
                  re_timestamp = 4000\<rparr>],
      currentZones = [''South'', ''North'']\<rparr>"
  using walk_geometry
  unfolding walk3_eq south_def north_def
  by (simp add: scenario_simps)

lemma walk4_reconstructed:
  "reconstructed kid (noon 5) walk4 ''north'' = None"
  "spec_lastKnownState ''north'' ''kid'' (geofenceEvents walk4) = Some Enter"
  unfolding walk4_eq south_def north_def
  by (simp_all add: scenario_simps spec_lastKnownState_def)

section \<open>Filters, keys and the event query\<close>

lemma filter_removeAll_excluded: "\<not> P g \<Longrightarrow> filter P (removeAll g xs) = filter P xs"
  by (induction xs) auto

lemma evaluated_filter:
  "evaluated u now s =
     filter (\<lambda>g. (gf_familyId g = the (u_familyId u) \<and> gf_isActive g = Some True) \<and>
                 (\<not> truthy (gf_childId g) \<or> gf_childId g = Some (u_id u)) \<and>
                 isGeofenceActiveNow (gf_schedule g) now)
       (geofences s)"
  by (simp add: evaluated_def activeGeofences_def applicableGeofences_def familyGeofences_def
        conj_commute conj_left_commute)

lemma evaluated_subset: "set (evaluated u now s) \<subseteq> set (geofences s)"
  by (auto simp: evaluated_filter)

lemma evaluated_distinct:
  "distinct (map gf_id (geofences s)) \<Longrightarrow> distinct (map gf_id (evaluated u now s))"
  by (simp add: evaluated_filter distinct_map_filter)

lemma evaluated_events_irrelevant [simp]:
  "evaluated u now (s\<lparr>geofenceEvents := evs\<rparr>) = evaluated u now s"
  by (simp add: evaluated_filter)

lemma same_id_same_geofence:
  "distinct (map gf_id gs) \<Longrightarrow> g \<in> set gs \<Longrightarrow> g' \<in> set gs \<Longrightarrow> gf_id g' = gf_id g \<Longrightarrow> g' = g"
  by (meson distinct_map inj_onD)

lemma newSummaries_ids:
  "e \<in> set (newSummaries now lsm la lo gs) \<Longrightarrow> re_geofenceId e \<in> gf_id ` set gs"
  by (induction gs) (auto simp: eventSummary_def split: option.splits)

lemma newRows_ids:
  "e \<in> set (newRows u la lo now gen lsm k gs) \<Longrightarrow> ev_geofenceId e \<in> gf_id ` set gs"
  by (induction gs arbitrary: k) (auto simp: eventRow_def split: option.splits)

lemma newRows_length: "length (newRows u la lo now gen lsm k gs) \<le> length gs"
  by (induction gs arbitrary: k) (auto split: option.splits simp: le_SucI)

lemma newSummaries_of_geofence:
  assumes "distinct (map gf_id gs)" "g \<in> set gs"
  shows "filter (\<lambda>e. re_geofenceId e = gf_id g) (newSummaries now lsm la lo gs) =
           (case transition lsm la lo g of None \<Rightarrow> [] | Some ty \<Rightarrow> [eventSummary now g ty])"
  using assms
proof (induction gs)
  case Nil
  then show ?case by simp
next
  case (Cons a gs)
  show ?case
  proof (cases "a = g")
    case True
    then have "gf_id g \<notin> gf_id ` set gs" using Cons.prems by auto
    then have "filter (\<lambda>e. re_geofenceId e = gf_id g) (newSummaries now lsm la lo gs) = []"
      unfolding filter_empty_conv by (metis newSummaries_ids)
    then show ?thesis using True by (simp add: eventSummary_def split: option.splits)
  next
    case False
    then have "g \<in> set gs" "gf_id a \<noteq> gf_id g" "distinct (map gf_id gs)"
      using Cons.prems by auto
    then show ?thesis
      using Cons.IH by (cases "transition lsm la lo a") (simp_all add: eventSummary_def)
  qed
qed

lemma newRows_of_geofence:
  assumes "distinct (map gf_id gs)" "g \<in> set gs"
  shows "map ev_eventType (filter (\<lambda>e. ev_geofenceId e = gf_id g) (newRows u la lo now gen lsm k gs)) =
           (case transition lsm la lo g of None \<Rightarrow> [] | Some ty \<Rightarrow> [ty])"
  using assms
proof (induction gs arbitrary: k)
  case Nil
  then show ?case by simp
next
  case (Cons a gs)
  show ?case
  proof (cases "a = g")
    case True
    then have "gf_id g \<notin> gf_id ` set gs" using Cons.prems by auto
    then have "\<And>k. filter (\<lambda>e. ev_geofenceId e = gf_id g) (newRows u la lo now gen lsm k gs) = []"
      unfolding filter_empty_conv by (metis newRows_ids)
    then show ?thesis using True by (simp add: eventRow_def split: option.splits)
  next
    case False
    then have "g \<in> set gs" "gf_id a \<noteq> gf_id g" "distinct (map gf_id gs)"
      using Cons.prems by auto
    then show ?thesis
      using Cons.IH by (cases "transition lsm la lo a") (simp_all add: eventRow_def)
  qed
qed


text \<open>The map holds, for each geofence, the type of its first enter or exit event in the list read.\<close>

lemma lastStateMap_find:
  "lastStateMap es m k =
     (case m k of
        Some v \<Rightarrow> Some v
      | None \<Rightarrow> map_option ev_eventType
          (find (\<lambda>e. ev_geofenceId e = k \<and> (ev_eventType e = Enter \<or> ev_eventType e = Exit)) es))"
  by (induction es arbitrary: m) (auto split: option.splits)


section \<open>A geofence the filters drop plays no part\<close>

lemma check_no_family_parts:
  assumes "\<not> truthy (u_familyId u)"
  shows "response (check u la lo now gen s) = \<lparr>events = [], currentZones = []\<rparr>"
    and "storeAfter (check u la lo now gen s) = s"
    and "statements (check u la lo now gen s) = []"
  using assms by (simp_all add: check_def response_def storeAfter_def statements_def)

lemma withoutGeofence_events [simp]:
  "geofenceEvents (withoutGeofence g s) = geofenceEvents s"
  by (simp add: withoutGeofence_def)

lemma inside_fun:
  "inside la lo =
     (\<lambda>g. isInsideGeofence la lo (gf_latitude g) (gf_longitude g) (real_of_int (gf_radius g)))"
  by (rule ext) (simp add: inside_def)

lemma evaluated_without:
  assumes "g \<notin> set (evaluated u now s)"
  shows "evaluated u now (withoutGeofence g s) = evaluated u now s"
proof (cases "g \<in> set (geofences s)")
  case True
  with assms show ?thesis
    by (simp add: evaluated_filter withoutGeofence_def filter_removeAll_excluded)
next
  case False
  then show ?thesis by (simp add: evaluated_filter withoutGeofence_def)
qed

lemma reconstructed_without:
  assumes "g \<notin> set (evaluated u now s)"
  shows "reconstructed u now (withoutGeofence g s) = reconstructed u now s"
  using evaluated_without [OF assms]
  by (simp add: reconstructed_def lastEvents_def withoutGeofence_def)

lemma check_without:
  assumes "g \<notin> set (evaluated u now s)"
  shows "response (check u la lo now gen (withoutGeofence g s)) = response (check u la lo now gen s)"
    and "geofenceEvents (storeAfter (check u la lo now gen (withoutGeofence g s))) =
         geofenceEvents (storeAfter (check u la lo now gen s))"
    and "statements (check u la lo now gen (withoutGeofence g s)) = statements (check u la lo now gen s)"
proof -
  note ev = evaluated_without [OF assms] and re = reconstructed_without [OF assms]
  show "response (check u la lo now gen (withoutGeofence g s)) = response (check u la lo now gen s)"
    by (cases "truthy (u_familyId u)")
       (simp_all add: check_family ev re check_no_family_parts)
  show "geofenceEvents (storeAfter (check u la lo now gen (withoutGeofence g s))) =
        geofenceEvents (storeAfter (check u la lo now gen s))"
    by (cases "truthy (u_familyId u)")
       (simp_all add: check_family ev re check_no_family_parts)
  show "statements (check u la lo now gen (withoutGeofence g s)) = statements (check u la lo now gen s)"
    by (cases "truthy (u_familyId u)")
       (simp_all add: check_family ev re check_no_family_parts)
qed

lemma check_new_rows:
  "drop (length (geofenceEvents s)) (geofenceEvents (storeAfter (check u la lo now gen s))) =
     (if truthy (u_familyId u)
      then newRows u la lo now gen (reconstructed u now s) 0 (evaluated u now s) else [])"
  by (simp add: check_family check_no_family_parts)

lemma not_evaluated_no_trace:
  assumes "g \<notin> set (evaluated u now s)" "distinct (map gf_id (geofences s))" "g \<in> set (geofences s)"
  shows "\<forall>e \<in> set (events (response (check u la lo now gen s))). re_geofenceId e \<noteq> gf_id g"
    and "\<forall>row \<in> set (drop (length (geofenceEvents s))
                        (geofenceEvents (storeAfter (check u la lo now gen s)))).
           ev_geofenceId row \<noteq> gf_id g"
proof -
  have notin: "gf_id g \<notin> gf_id ` set (evaluated u now s)"
  proof
    assume "gf_id g \<in> gf_id ` set (evaluated u now s)"
    then obtain g' where g': "g' \<in> set (evaluated u now s)" "gf_id g' = gf_id g" by auto
    then have "g' \<in> set (geofences s)" using evaluated_subset by blast
    then have "g' = g" using same_id_same_geofence assms(2,3) g'(2) by blast
    then show False using g'(1) assms(1) by simp
  qed
  show "\<forall>e \<in> set (events (response (check u la lo now gen s))). re_geofenceId e \<noteq> gf_id g"
  proof (cases "truthy (u_familyId u)")
    case True
    then have "events (response (check u la lo now gen s)) =
                 newSummaries now (reconstructed u now s) la lo (evaluated u now s)"
      by (simp add: check_family)
    then show ?thesis using notin by (metis newSummaries_ids)
  next
    case False
    then show ?thesis by (simp add: check_no_family_parts)
  qed
  show "\<forall>row \<in> set (drop (length (geofenceEvents s))
                        (geofenceEvents (storeAfter (check u la lo now gen s)))).
           ev_geofenceId row \<noteq> gf_id g"
  proof (cases "truthy (u_familyId u)")
    case True
    then show ?thesis unfolding check_new_rows using notin by (metis newRows_ids)
  next
    case False
    then show ?thesis unfolding check_new_rows by simp
  qed
qed

section \<open>Times of day as strings\<close>

lemma digit_code: "d < 10 \<Longrightarrow> (of_char (digit d) :: nat) = 48 + d"
proof -
  assume "d < 10"
  then have "d \<in> {0, 1, 2, 3, 4, 5, 6, 7, 8, 9}" by auto
  then show ?thesis by (auto simp: digit_def)
qed

lemma digit_eq_iff:
  assumes "a < 10" "b < 10"
  shows "digit a = digit b \<longleftrightarrow> a = b"
proof
  assume "digit a = digit b"
  then have "(of_char (digit a) :: nat) = of_char (digit b)" by (rule arg_cong)
  then have "48 + a = 48 + b"
    unfolding digit_code [OF assms(1)] digit_code [OF assms(2)] .
  then show "a = b" by simp
next
  assume "a = b"
  then show "digit a = digit b" by (rule arg_cong)
qed

lemma digit_zero: "digit 0 = CHR ''0''"
  by (simp add: digit_def)

lemma padStart_two_digits:
  assumes "n < 100"
  shows "padStart 2 (CHR ''0'') (String_of n) = [digit (n div 10), digit (n mod 10)]"
proof (cases "n < 10")
  case True
  then show ?thesis by (simp add: String_of.simps [of n] padStart_def digit_zero)
next
  case False
  then have "n div 10 < 10" using assms by simp
  then have "String_of (n div 10) = [digit (n div 10)]" by (simp add: String_of.simps [of "n div 10"])
  then show ?thesis using False by (simp add: String_of.simps [of n] padStart_def)
qed

lemma currentTime_hhmm:
  "getHours now < 100 \<Longrightarrow> getMinutes now < 100 \<Longrightarrow>
     currentTime now = hhmm (getHours now) (getMinutes now)"
  by (simp add: currentTime_def hhmm_def padStart_two_digits)

lemma lex_pair_less:
  "y < 10 \<Longrightarrow> w < 10 \<Longrightarrow> (x < z \<or> (x = z \<and> y < w)) \<longleftrightarrow> 10 * x + y < 10 * z + (w :: nat)"
  by arith

lemma two_digits_less:
  "(a div 10 < c div 10 \<or> (a div 10 = c div 10 \<and> a mod 10 < c mod 10)) \<longleftrightarrow> a < (c :: nat)"
proof -
  have "(a div 10 < c div 10 \<or> (a div 10 = c div 10 \<and> a mod 10 < c mod 10)) \<longleftrightarrow>
          10 * (a div 10) + a mod 10 < 10 * (c div 10) + c mod 10"
    by (rule lex_pair_less) simp_all
  then show ?thesis by simp
qed

lemma two_digits_eq: "(a div 10 = c div 10 \<and> a mod 10 = c mod 10) \<longleftrightarrow> a = (c :: nat)"
  by (metis mult_div_mod_eq)

lemma str_le_hhmm:
  assumes "a < 100" "b < 100" "c < 100" "d < 100"
  shows "str_le (hhmm a b) (hhmm c d) \<longleftrightarrow> a < c \<or> (a = c \<and> b \<le> d)"
proof -
  have dg: "a div 10 < 10" "a mod 10 < 10" "b div 10 < 10" "b mod 10 < 10"
           "c div 10 < 10" "c mod 10 < 10" "d div 10 < 10" "d mod 10 < 10"
    using assms by simp_all
  have "str_le (hhmm a b) (hhmm c d) \<longleftrightarrow>
          a div 10 < c div 10 \<or> (a div 10 = c div 10 \<and>
            (a mod 10 < c mod 10 \<or> (a mod 10 = c mod 10 \<and>
               (b div 10 < d div 10 \<or> (b div 10 = d div 10 \<and>
                  (b mod 10 < d mod 10 \<or> b mod 10 = d mod 10))))))"
    by (simp add: hhmm_def digit_code dg digit_eq_iff)
  also have "\<dots> \<longleftrightarrow> a < c \<or> (a = c \<and> (b < d \<or> b = d))"
    unfolding two_digits_less [of a c, symmetric] two_digits_less [of b d, symmetric]
      two_digits_eq [of a c, symmetric] two_digits_eq [of b d, symmetric]
    by blast
  finally show ?thesis by auto
qed

lemma str_le_hhmm_minutes:
  assumes "a < 100" "b < 60" "c < 100" "d < 60"
  shows "str_le (hhmm a b) (hhmm c d) \<longleftrightarrow> minuteOfDay a b \<le> minuteOfDay c d"
proof -
  have "str_le (hhmm a b) (hhmm c d) \<longleftrightarrow> a < c \<or> (a = c \<and> b \<le> d)"
    using assms by (intro str_le_hhmm) auto
  also have "\<dots> \<longleftrightarrow> minuteOfDay a b \<le> minuteOfDay c d"
    using assms(2,4) unfolding minuteOfDay_def by arith
  finally show ?thesis .
qed

lemma isGeofenceActiveNow_Some:
  "isGeofenceActiveNow (Some sc) now \<longleftrightarrow>
     int (getDay now) \<in> set (days sc) \<and>
     str_le (startTime sc) (currentTime now) \<and> str_le (currentTime now) (endTime sc)"
  by (simp add: isGeofenceActiveNow_def str_ge_def)

section \<open>What the event query returns after a call\<close>

lemma insort_key_after_smaller:
  "\<forall>y \<in> set ys. f y < f x \<Longrightarrow> insort_key f x (ys @ zs) = ys @ insort_key f x zs"
  by (induction ys) auto

lemma sort_key_append_newer:
  assumes "\<forall>y \<in> set ys. f y = c" and "\<forall>x \<in> set xs. c < f x"
  shows "sort_key f (xs @ ys) = ys @ sort_key f xs"
proof -
  have const: "map f ys = replicate (length ys) c"
    using assms(1) by (induction ys) auto
  have ys: "sort_key f ys = ys"
    by (rule sort_key_id_if_sorted) (simp add: const sorted_replicate)
  have "foldr (insort_key f) xs ys = ys @ sort_key f xs"
    using assms(2)
  proof (induction xs)
    case Nil
    then show ?case by simp
  next
    case (Cons x xs)
    then have "\<forall>y \<in> set ys. f y < f x" using assms(1) by simp
    then show ?case using Cons by (simp add: sort_key_def insort_key_after_smaller)
  qed
  then show ?thesis using ys by (simp add: sort_key_def)
qed

lemma newRows_stamp:
  "e \<in> set (newRows u la lo now gen lsm k gs) \<Longrightarrow>
     ev_childId e = u_id u \<and> ev_timestamp e = storedTimestamp now"
  by (induction gs arbitrary: k) (auto simp: eventRow_def split: option.splits)

lemma lastEvents_after_call:
  assumes older: "\<forall>e \<in> set evs. ev_childId e = u_id u \<longrightarrow> ev_timestamp e < storedTimestamp now"
    and fits: "length (newRows u la lo now gen lsm k gs) \<le> n"
  shows "lastEvents u n (s\<lparr>geofenceEvents := evs @ newRows u la lo now gen lsm k gs\<rparr>) =
           newRows u la lo now gen lsm k gs @
           take (n - length (newRows u la lo now gen lsm k gs))
             (sort_key (\<lambda>e. - ev_timestamp e) (filter (\<lambda>e. ev_childId e = u_id u) evs))"
proof -
  let ?rows = "newRows u la lo now gen lsm k gs"
  let ?old = "filter (\<lambda>e. ev_childId e = u_id u) evs"
  have f: "filter (\<lambda>e. ev_childId e = u_id u) ?rows = ?rows"
    using newRows_stamp [of _ u la lo now gen lsm k gs] by (simp add: filter_id_conv)
  have "sort_key (\<lambda>e. - ev_timestamp e) (?old @ ?rows) =
          ?rows @ sort_key (\<lambda>e. - ev_timestamp e) ?old"
  proof (rule sort_key_append_newer [where c = "- storedTimestamp now"])
    show "\<forall>y \<in> set ?rows. - ev_timestamp y = - storedTimestamp now"
      using newRows_stamp [of _ u la lo now gen lsm k gs] by simp
    show "\<forall>x \<in> set ?old. - storedTimestamp now < - ev_timestamp x"
      using older by simp
  qed
  then show ?thesis using fits by (simp add: lastEvents_def f)
qed

lemma find_first_of_filter:
  "filter P xs = x # rest \<Longrightarrow> find P (xs @ ys) = Some x"
  by (induction xs) (auto split: if_splits)

lemma lastStateMap_of_new_row:
  assumes "distinct (map gf_id gs)" "g \<in> set gs" "transition lsm la lo g = Some ty"
  shows "lastStateMap (newRows u la lo now gen lsm k gs @ rest) Map.empty (gf_id g) = Some ty"
proof -
  let ?rows = "newRows u la lo now gen lsm k gs"
  have one: "map ev_eventType (filter (\<lambda>e. ev_geofenceId e = gf_id g) ?rows) = [ty]"
    using newRows_of_geofence [OF assms(1,2)] assms(3) by simp
  then obtain r where r: "filter (\<lambda>e. ev_geofenceId e = gf_id g) ?rows = [r]" "ev_eventType r = ty"
    by auto
  have ty: "ty = Enter \<or> ty = Exit"
    using assms(3) by (auto simp: transition_def split: if_splits)
  have "filter (\<lambda>e. ev_geofenceId e = gf_id g \<and> (ev_eventType e = Enter \<or> ev_eventType e = Exit)) ?rows =
          filter (\<lambda>e. ev_eventType e = Enter \<or> ev_eventType e = Exit)
            (filter (\<lambda>e. ev_geofenceId e = gf_id g) ?rows)"
    by (simp add: conj_commute)
  also have "\<dots> = [r]" using r ty by auto
  finally have "find (\<lambda>e. ev_geofenceId e = gf_id g \<and> (ev_eventType e = Enter \<or> ev_eventType e = Exit))
                  (?rows @ rest) = Some r"
    by (rule find_first_of_filter)
  then show ?thesis using r(2) by (simp add: lastStateMap_find)
qed


text \<open>After a call, the next call reconstructs the state of every geofence that call moved.\<close>

lemma reconstructed_after_call:
  assumes fam: "truthy (u_familyId u)"
    and pk: "distinct (map gf_id (geofences s))"
    and older: "\<forall>e \<in> set (geofenceEvents s). ev_childId e = u_id u \<longrightarrow> ev_timestamp e < storedTimestamp now1"
    and g: "g \<in> set (evaluated u now1 s)"
    and len: "length (evaluated u now1 s) \<le> length (evaluated u now2 s)"
    and tr: "transition (reconstructed u now1 s) la lo g = Some ty"
  shows "reconstructed u now2 (storeAfter (check u la lo now1 gen s)) (gf_id g) = Some ty"
proof -
  let ?rows = "newRows u la lo now1 gen (reconstructed u now1 s) 0 (evaluated u now1 s)"
  have fits: "length ?rows \<le> length (evaluated u now2 s)"
    using newRows_length [of u la lo now1 gen "reconstructed u now1 s" 0 "evaluated u now1 s"] len
    by simp
  have d: "distinct (map gf_id (evaluated u now1 s))" using pk by (rule evaluated_distinct)
  show ?thesis
    using lastStateMap_of_new_row [OF d g tr]
    by (simp add: check_family fam reconstructed_def [of u now2]
          lastEvents_after_call [OF older fits])
qed

section \<open>Reconstruction when the query is not cut\<close>

lemma find_filter_conj: "find Q (filter P xs) = find (\<lambda>x. P x \<and> Q x) xs"
  by (induction xs) auto

text \<open>
  When the limit is at least the number of the child's events, the map agrees with the
  specification's last known state for every geofence.
\<close>

lemma reconstruction_untruncated:
  assumes "length (filter (\<lambda>e. ev_childId e = u_id u) (geofenceEvents s)) \<le> n"
  shows "lastStateMap (lastEvents u n s) Map.empty gid =
           spec_lastKnownState gid (u_id u) (geofenceEvents s)"
proof -
  let ?mine = "filter (\<lambda>e. ev_childId e = u_id u) (geofenceEvents s)"
  have all: "lastEvents u n s = sort_key (\<lambda>e. - ev_timestamp e) ?mine"
    using assms by (simp add: lastEvents_def)
  have "filter (\<lambda>e. ev_geofenceId e = gid \<and> ev_childId e = u_id u) (geofenceEvents s) =
          filter (\<lambda>e. ev_geofenceId e = gid) ?mine"
    by (simp add: conj_commute)
  then have "sort_key (\<lambda>e. - ev_timestamp e)
               (filter (\<lambda>e. ev_geofenceId e = gid \<and> ev_childId e = u_id u) (geofenceEvents s)) =
             filter (\<lambda>e. ev_geofenceId e = gid) (sort_key (\<lambda>e. - ev_timestamp e) ?mine)"
    by (simp add: filter_sort)
  then show ?thesis
    by (simp add: all lastStateMap_find spec_lastKnownState_def find_filter_conj)
qed

lemma newSummaries_silent:
  "\<forall>g \<in> set gs. transition lsm la lo g = None \<Longrightarrow> newSummaries now lsm la lo gs = []"
  by (induction gs) auto

text \<open>
  Where the query of the second call is not cut (the limit covers all of the child's
  events, those of the first call included), the second of two calls at the same point
  emits nothing.
\<close>

lemma second_check_silent_when_log_fits:
  assumes fam: "truthy (u_familyId u)"
    and pk: "distinct (map gf_id (geofences s))"
    and older: "\<forall>e \<in> set (geofenceEvents s). ev_childId e = u_id u \<longrightarrow> ev_timestamp e < storedTimestamp now1"
    and same: "evaluated u now2 s = evaluated u now1 s"
    and fits: "length (filter (\<lambda>e. ev_childId e = u_id u)
                 (geofenceEvents (storeAfter (check u la lo now1 gen1 s)))) \<le>
               length (evaluated u now1 s)"
  shows "events (response (check u la lo now2 gen2 (storeAfter (check u la lo now1 gen1 s)))) = []"
proof -
  let ?gs = "evaluated u now1 s"
  let ?lsm1 = "reconstructed u now1 s"
  let ?s1 = "storeAfter (check u la lo now1 gen1 s)"
  let ?lsm2 = "reconstructed u now2 ?s1"
  let ?rows = "newRows u la lo now1 gen1 ?lsm1 0 ?gs"
  have d: "distinct (map gf_id ?gs)" using pk by (rule evaluated_distinct)
  have ev2: "evaluated u now2 ?s1 = ?gs" by (simp add: check_family fam same)
  have log1: "geofenceEvents ?s1 = geofenceEvents s @ ?rows" by (simp add: check_family fam)
  have fits1: "length (filter (\<lambda>e. ev_childId e = u_id u) (geofenceEvents s)) \<le> length ?gs"
    using fits unfolding log1 by simp
  have silent: "transition ?lsm2 la lo g = None" if g: "g \<in> set ?gs" for g
  proof (cases "transition ?lsm1 la lo g")
    case None
    have none: "filter (\<lambda>e. ev_geofenceId e = gf_id g) ?rows = []"
      using newRows_of_geofence [OF d g, of u la lo now1 gen1 ?lsm1 0] None by simp
    then have "filter (\<lambda>e. ev_geofenceId e = gf_id g \<and> ev_childId e = u_id u) ?rows = []"
      by (auto simp: filter_empty_conv)
    then have "spec_lastKnownState (gf_id g) (u_id u) (geofenceEvents ?s1) =
               spec_lastKnownState (gf_id g) (u_id u) (geofenceEvents s)"
      unfolding log1 by (simp add: spec_lastKnownState_def)
    then have "?lsm2 (gf_id g) = ?lsm1 (gf_id g)"
      using reconstruction_untruncated [OF fits, of "gf_id g"]
        reconstruction_untruncated [OF fits1, of "gf_id g"]
      by (simp add: reconstructed_def ev2)
    then have "transition ?lsm2 la lo g = transition ?lsm1 la lo g"
      by (simp only: transition_def)
    then show ?thesis using None by simp
  next
    case (Some ty)
    have "?lsm2 (gf_id g) = Some ty"
      by (rule reconstructed_after_call [OF fam pk older g _ Some]) (simp add: same)
    then show ?thesis using Some by (auto simp: transition_def split: if_splits)
  qed
  show ?thesis
    using newSummaries_silent [of ?gs ?lsm2 la lo now2] silent
    by (simp add: check_family(1) [OF fam, of la lo now2 gen2 ?s1] ev2)
qed

section \<open>The claims\<close>

text \<open>
  C1 (idempotence): calling the evaluation twice in immediate succession with the same
  point and no intervening change should yield no event on the second call. The code
  does not: after the walk, the child reports the overlap of South and North twice; the
  first report emits the enter of South, and the second, reading only the two newest
  events (both of South), no longer sees the enter of North and emits it again. Where
  the query is not cut the second call is silent (\<open>second_check_silent_when_log_fits\<close>).
\<close>

theorem second_identical_check_emits_again:
  "walk4 = storeAfter (check kid (1 / 200) 0 (noon 4) (ids 4) walk3) \<and>
   events (response (check kid (1 / 200) 0 (noon 4) (ids 4) walk3)) =
     [\<lparr>re_geofenceId = ''south'', re_geofenceName = ''South'', re_eventType = Enter,
       re_timestamp = 4000\<rparr>] \<and>
   events (response (check kid (1 / 200) 0 (noon 5) (ids 5) walk4)) =
     [\<lparr>re_geofenceId = ''north'', re_geofenceName = ''North'', re_eventType = Enter,
       re_timestamp = 5000\<rparr>]"
proof (intro conjI)
  show "walk4 = storeAfter (check kid (1 / 200) 0 (noon 4) (ids 4) walk3)"
    by (simp only: walk4_def)
qed (simp_all add: walk4_response walk5_response)

text \<open>
  C2 (state reconstruction): the reconstructed state of a (geofence, child) pair should
  be the type of the pair's most recent enter or exit event in the whole log, and no
  older state that still holds may be omitted. The code reads only as many events as
  there are evaluated geofences: after the walk the newest two events are both of South,
  so North, entered and never left, has no entry in the map. With a limit that covers the
  child's events the map is the specification's (\<open>reconstruction_untruncated\<close>).
\<close>

theorem reconstruction_omits_older_state:
  "evaluated kid (noon 5) walk4 = [south, north] \<and>
   reconstructed kid (noon 5) walk4 (gf_id north) = None \<and>
   spec_lastKnownState (gf_id north) (u_id kid) (geofenceEvents walk4) = Some Enter"
  using walk4_reconstructed
  by (simp add: walk4_eq south_def north_def evaluated_zones zone_sel kid_family)




text \<open>
  C4 (closed disk): \<open>isInsideGeofence\<close> is false when the haversine distance from the
  point to the centre exceeds the radius and true when it equals the radius; it holds
  exactly when the distance is at most the radius.
\<close>

theorem isInsideGeofence_closed_disk:
  "(radiusMeters < calculateDistance pointLat pointLon geofenceLat geofenceLon \<longrightarrow>
      \<not> isInsideGeofence pointLat pointLon geofenceLat geofenceLon radiusMeters) \<and>
   (calculateDistance pointLat pointLon geofenceLat geofenceLon = radiusMeters \<longrightarrow>
      isInsideGeofence pointLat pointLon geofenceLat geofenceLon radiusMeters) \<and>
   (calculateDistance pointLat pointLon geofenceLat geofenceLon \<le> radiusMeters \<longrightarrow>
      isInsideGeofence pointLat pointLon geofenceLat geofenceLon radiusMeters)"
  by (simp add: isInsideGeofence_def)

theorem isInsideGeofence_closed_disk_witness:
  "calculateDistance 1 0 0 0 = 6371000 * (pi / 180) \<and>
   isInsideGeofence 1 0 0 0 (6371000 * (pi / 180)) \<and>
   100 < calculateDistance 1 0 0 0 \<and>
   \<not> isInsideGeofence 1 0 0 0 100 \<and>
   isInsideGeofence 0 0 0 0 0"
proof -
  have d: "calculateDistance 1 0 0 0 = 6371000 * (pi / 180)"
    using calculateDistance_meridian [of 0 1 0] by (simp add: toRad_def)
  have far: "100 < calculateDistance 1 0 0 0"
    using pi_ge_two unfolding d by simp
  have z: "calculateDistance 0 0 0 0 = 0" by (rule calculateDistance_same)
  show ?thesis
    using d far z
      isInsideGeofence_closed_disk [of "6371000 * (pi / 180)" 1 0 0 0]
      isInsideGeofence_closed_disk [of 100 1 0 0 0]
      isInsideGeofence_closed_disk [of 0 0 0 0 0]
    by simp
qed

text \<open>
  C5 (schedule gating): a geofence passes the schedule filter exactly when it has no
  schedule, or today's weekday is among the schedule's days and the current "HH:MM"
  string lies between the start and end strings, both ends included; for well-formed
  times that is the comparison of the minutes of the day. A geofence that does not pass
  leaves the outcome as the directory without it gives it, and (ids being the primary
  key) has no event in the response and no row appended, wherever the point is.
\<close>

theorem schedule_gating:
  "isGeofenceActiveNow None now \<and>
   (isGeofenceActiveNow (Some sc) now \<longleftrightarrow>
      int (getDay now) \<in> set (days sc) \<and>
      str_le (startTime sc) (currentTime now) \<and> str_le (currentTime now) (endTime sc)) \<and>
   (getHours now < 24 \<and> getMinutes now < 60 \<and> sh < 24 \<and> sm < 60 \<and> eh < 24 \<and> em < 60 \<longrightarrow>
      (isGeofenceActiveNow (Some \<lparr>days = ds, startTime = hhmm sh sm, endTime = hhmm eh em\<rparr>) now \<longleftrightarrow>
         int (getDay now) \<in> set ds \<and>
         minuteOfDay sh sm \<le> minuteOfDay (getHours now) (getMinutes now) \<and>
         minuteOfDay (getHours now) (getMinutes now) \<le> minuteOfDay eh em)) \<and>
   (\<not> isGeofenceActiveNow (gf_schedule g) now \<longrightarrow>
      g \<notin> set (activeGeofences now gs) \<and>
      response (check u latitude longitude now generateId (withoutGeofence g s)) =
        response (check u latitude longitude now generateId s) \<and>
      geofenceEvents (storeAfter (check u latitude longitude now generateId (withoutGeofence g s))) =
        geofenceEvents (storeAfter (check u latitude longitude now generateId s)) \<and>
      (distinct (map gf_id (geofences s)) \<and> g \<in> set (geofences s) \<longrightarrow>
         (\<forall>e \<in> set (events (response (check u latitude longitude now generateId s))).
            re_geofenceId e \<noteq> gf_id g) \<and>
         (\<forall>row \<in> set (drop (length (geofenceEvents s))
              (geofenceEvents (storeAfter (check u latitude longitude now generateId s)))).
            ev_geofenceId row \<noteq> gf_id g)))"
proof (intro conjI impI)
  show "isGeofenceActiveNow None now" by (simp add: isGeofenceActiveNow_def)
  show "isGeofenceActiveNow (Some sc) now \<longleftrightarrow>
      int (getDay now) \<in> set (days sc) \<and>
      str_le (startTime sc) (currentTime now) \<and> str_le (currentTime now) (endTime sc)"
    by (rule isGeofenceActiveNow_Some)
next
  assume wf: "getHours now < 24 \<and> getMinutes now < 60 \<and> sh < 24 \<and> sm < 60 \<and> eh < 24 \<and> em < 60"
  then have ct: "currentTime now = hhmm (getHours now) (getMinutes now)"
    by (intro currentTime_hhmm) auto
  show "isGeofenceActiveNow (Some \<lparr>days = ds, startTime = hhmm sh sm, endTime = hhmm eh em\<rparr>) now \<longleftrightarrow>
         int (getDay now) \<in> set ds \<and>
         minuteOfDay sh sm \<le> minuteOfDay (getHours now) (getMinutes now) \<and>
         minuteOfDay (getHours now) (getMinutes now) \<le> minuteOfDay eh em"
    using wf by (simp add: isGeofenceActiveNow_Some ct str_le_hhmm_minutes)
next
  assume off: "\<not> isGeofenceActiveNow (gf_schedule g) now"
  then have ne: "g \<notin> set (evaluated u now s)" by (simp add: evaluated_filter)
  show "g \<notin> set (activeGeofences now gs)" using off by (simp add: activeGeofences_def)
  show "response (check u latitude longitude now generateId (withoutGeofence g s)) =
        response (check u latitude longitude now generateId s)"
    by (rule check_without [OF ne])
  show "geofenceEvents (storeAfter (check u latitude longitude now generateId (withoutGeofence g s))) =
        geofenceEvents (storeAfter (check u latitude longitude now generateId s))"
    by (rule check_without [OF ne])
  assume pk: "distinct (map gf_id (geofences s)) \<and> g \<in> set (geofences s)"
  show "\<forall>e \<in> set (events (response (check u latitude longitude now generateId s))).
            re_geofenceId e \<noteq> gf_id g"
    using not_evaluated_no_trace(1) [OF ne] pk by blast
  show "\<forall>row \<in> set (drop (length (geofenceEvents s))
              (geofenceEvents (storeAfter (check u latitude longitude now generateId s)))).
            ev_geofenceId row \<noteq> gf_id g"
    using not_evaluated_no_trace(2) [OF ne] pk by blast
qed

theorem schedule_gating_witness:
  "\<not> isGeofenceActiveNow (gf_schedule school) sunday \<and>
   gf_isActive school = Some True \<and>
   isInsideGeofence 0 0 (gf_latitude school) (gf_longitude school) (real_of_int (gf_radius school)) \<and>
   response (check kid 0 0 sunday (ids 1) \<lparr>geofences = [school], geofenceEvents = []\<rparr>) =
     \<lparr>events = [], currentZones = []\<rparr> \<and>
   isGeofenceActiveNow (gf_schedule school) \<lparr>getTime = 1, getDay = 1, getHours = 16, getMinutes = 0\<rparr> \<and>
   \<not> isGeofenceActiveNow (gf_schedule school) \<lparr>getTime = 1, getDay = 1, getHours = 16, getMinutes = 1\<rparr>"
proof -
  let ?s = "\<lparr>geofences = [school], geofenceEvents = []\<rparr>"
  let ?sc = "\<lparr>days = [1, 2, 3, 4, 5], startTime = hhmm 8 0, endTime = hhmm 16 0\<rparr>"
  have sc: "gf_schedule school = Some ?sc"
    by (simp add: school_def hhmm_def digit_def)
  have sun: "\<not> isGeofenceActiveNow (gf_schedule school) sunday"
  proof -
    have "isGeofenceActiveNow (Some ?sc) sunday \<longleftrightarrow>
            int (getDay sunday) \<in> set [1, 2, 3, 4, 5] \<and>
            minuteOfDay 8 0 \<le> minuteOfDay (getHours sunday) (getMinutes sunday) \<and>
            minuteOfDay (getHours sunday) (getMinutes sunday) \<le> minuteOfDay 16 0"
      using schedule_gating [where sc = ?sc and g = school and gs = "[school]" and u = kid and latitude = 0
        and longitude = 0 and generateId = "ids 1" and s = ?s and sh = 8 and sm = 0 and eh = 16
        and em = 0 and ds = "[1, 2, 3, 4, 5]"
        and now = "sunday", THEN conjunct2, THEN conjunct2, THEN conjunct1]
      by (simp add: sunday_def)
    then show ?thesis unfolding sc by (simp add: minuteOfDay_def sunday_def)
  qed
  have at16: "isGeofenceActiveNow (gf_schedule school) (\<lparr>getTime = 1, getDay = 1, getHours = 16, getMinutes = 0\<rparr>)"
  proof -
    have "isGeofenceActiveNow (Some ?sc) (\<lparr>getTime = 1, getDay = 1, getHours = 16, getMinutes = 0\<rparr>) \<longleftrightarrow>
            int (getDay (\<lparr>getTime = 1, getDay = 1, getHours = 16, getMinutes = 0\<rparr>)) \<in> set [1, 2, 3, 4, 5] \<and>
            minuteOfDay 8 0 \<le> minuteOfDay (getHours (\<lparr>getTime = 1, getDay = 1, getHours = 16, getMinutes = 0\<rparr>)) (getMinutes (\<lparr>getTime = 1, getDay = 1, getHours = 16, getMinutes = 0\<rparr>)) \<and>
            minuteOfDay (getHours (\<lparr>getTime = 1, getDay = 1, getHours = 16, getMinutes = 0\<rparr>)) (getMinutes (\<lparr>getTime = 1, getDay = 1, getHours = 16, getMinutes = 0\<rparr>)) \<le> minuteOfDay 16 0"
      using schedule_gating [where sc = ?sc and g = school and gs = "[school]" and u = kid and latitude = 0
        and longitude = 0 and generateId = "ids 1" and s = ?s and sh = 8 and sm = 0 and eh = 16
        and em = 0 and ds = "[1, 2, 3, 4, 5]"
        and now = "\<lparr>getTime = 1, getDay = 1, getHours = 16, getMinutes = 0\<rparr>", THEN conjunct2, THEN conjunct2, THEN conjunct1]
      by (simp add: sunday_def)
    then show ?thesis unfolding sc by (simp add: minuteOfDay_def sunday_def)
  qed
  have after16: "\<not> isGeofenceActiveNow (gf_schedule school) (\<lparr>getTime = 1, getDay = 1, getHours = 16, getMinutes = 1\<rparr>)"
  proof -
    have "isGeofenceActiveNow (Some ?sc) (\<lparr>getTime = 1, getDay = 1, getHours = 16, getMinutes = 1\<rparr>) \<longleftrightarrow>
            int (getDay (\<lparr>getTime = 1, getDay = 1, getHours = 16, getMinutes = 1\<rparr>)) \<in> set [1, 2, 3, 4, 5] \<and>
            minuteOfDay 8 0 \<le> minuteOfDay (getHours (\<lparr>getTime = 1, getDay = 1, getHours = 16, getMinutes = 1\<rparr>)) (getMinutes (\<lparr>getTime = 1, getDay = 1, getHours = 16, getMinutes = 1\<rparr>)) \<and>
            minuteOfDay (getHours (\<lparr>getTime = 1, getDay = 1, getHours = 16, getMinutes = 1\<rparr>)) (getMinutes (\<lparr>getTime = 1, getDay = 1, getHours = 16, getMinutes = 1\<rparr>)) \<le> minuteOfDay 16 0"
      using schedule_gating [where sc = ?sc and g = school and gs = "[school]" and u = kid and latitude = 0
        and longitude = 0 and generateId = "ids 1" and s = ?s and sh = 8 and sm = 0 and eh = 16
        and em = 0 and ds = "[1, 2, 3, 4, 5]"
        and now = "\<lparr>getTime = 1, getDay = 1, getHours = 16, getMinutes = 1\<rparr>", THEN conjunct2, THEN conjunct2, THEN conjunct1]
      by (simp add: sunday_def)
    then show ?thesis unfolding sc by (simp add: minuteOfDay_def sunday_def)
  qed
  have w: "withoutGeofence school ?s = \<lparr>geofences = [], geofenceEvents = []\<rparr>"
    by (simp add: withoutGeofence_def)
  have e: "evaluated kid sunday \<lparr>geofences = [], geofenceEvents = []\<rparr> = []"
    by (simp add: evaluated_filter)
  have r: "response (check kid 0 0 sunday (ids 1) \<lparr>geofences = [], geofenceEvents = []\<rparr>) =
             \<lparr>events = [], currentZones = []\<rparr>"
    by (simp add: check_family kid_family e)
  have "\<not> isGeofenceActiveNow (gf_schedule school) sunday \<longrightarrow>
          school \<notin> set (activeGeofences sunday [school]) \<and>
          response (check kid 0 0 sunday (ids 1) (withoutGeofence school ?s)) =
            response (check kid 0 0 sunday (ids 1) ?s)"
    using schedule_gating [where sc = ?sc and g = school and gs = "[school]" and u = kid and latitude = 0
        and longitude = 0 and generateId = "ids 1" and s = ?s and sh = 8 and sm = 0 and eh = 16
        and em = 0 and ds = "[1, 2, 3, 4, 5]"
        and now = sunday, THEN conjunct2, THEN conjunct2, THEN conjunct2]
    by blast
  then have gone: "response (check kid 0 0 sunday (ids 1) ?s) = \<lparr>events = [], currentZones = []\<rparr>"
    using sun r unfolding w by simp
  have i: "isInsideGeofence 0 0 (gf_latitude school) (gf_longitude school)
             (real_of_int (gf_radius school))"
    by (simp add: school_def zone_def isInsideGeofence_def calculateDistance_same)
  have act: "gf_isActive school = Some True" by (simp add: school_def zone_def)
  show ?thesis using sun act i gone at16 after16 by simp
qed

text \<open>
  C6 (notification suppression): a geofence the loop evaluates, with \<open>notifyEnter\<close>
  off and the point inside it, gets no event in the response and no row in the log,
  whatever its last known state, and its name is in \<open>currentZones\<close>. Ids are the
  table's primary key.
\<close>

theorem notifyEnter_off_zone_without_event:
  assumes "truthy (u_familyId u)"
    and "distinct (map gf_id (geofences s))"
    and "g \<in> set (activeGeofences now (applicableGeofences u (familyGeofences (the (u_familyId u)) s)))"
    and "gf_notifyEnter g \<noteq> Some True"
    and "isInsideGeofence latitude longitude (gf_latitude g) (gf_longitude g) (real_of_int (gf_radius g))"
  shows "filter (\<lambda>e. re_geofenceId e = gf_id g)
           (events (response (check u latitude longitude now generateId s))) = [] \<and>
         filter (\<lambda>row. ev_geofenceId row = gf_id g)
           (drop (length (geofenceEvents s))
              (geofenceEvents (storeAfter (check u latitude longitude now generateId s)))) = [] \<and>
         gf_name g \<in> set (currentZones (response (check u latitude longitude now generateId s)))"
proof -
  have g: "g \<in> set (evaluated u now s)" using assms(3) by (simp add: evaluated_def)
  have ins: "inside latitude longitude g" using assms(5) by (simp add: inside_def)
  have d: "distinct (map gf_id (evaluated u now s))" using assms(2) by (rule evaluated_distinct)
  have t: "transition (reconstructed u now s) latitude longitude g = None"
    using assms(4) ins by (simp add: transition_def)
  have rows: "map ev_eventType
      (filter (\<lambda>row. ev_geofenceId row = gf_id g)
         (newRows u latitude longitude now generateId (reconstructed u now s) 0 (evaluated u now s))) = []"
    using newRows_of_geofence [OF d g] t by simp
  show ?thesis
    using assms(1) g ins t rows newSummaries_of_geofence [OF d g]
    by (simp add: check_family check_new_rows)
qed

theorem notifyEnter_off_zone_without_event_witness:
  "events (response (check kid 0 0 (noon 1) (ids 1) \<lparr>geofences = [quiet], geofenceEvents = []\<rparr>)) = [] \<and>
   geofenceEvents (storeAfter (check kid 0 0 (noon 1) (ids 1)
      \<lparr>geofences = [quiet], geofenceEvents = []\<rparr>)) = [] \<and>
   ''Park'' \<in> set (currentZones (response (check kid 0 0 (noon 1) (ids 1)
      \<lparr>geofences = [quiet], geofenceEvents = []\<rparr>)))"
proof -
  let ?s = "\<lparr>geofences = [quiet], geofenceEvents = []\<rparr>"
  have h1: "truthy (u_familyId kid)" by (rule kid_family)
  have h2: "distinct (map gf_id (geofences ?s))" by simp
  have h3: "quiet \<in> set (activeGeofences (noon 1)
              (applicableGeofences kid (familyGeofences (the (u_familyId kid)) ?s)))"
    by (simp add: quiet_def zone_def activeGeofences_def applicableGeofences_def
          familyGeofences_def kid_family isGeofenceActiveNow_def truthy_def)
  have h4: "gf_notifyEnter quiet \<noteq> Some True" by (simp add: quiet_def)
  have h5: "isInsideGeofence 0 0 (gf_latitude quiet) (gf_longitude quiet) (real_of_int (gf_radius quiet))"
    by (simp add: quiet_def zone_def isInsideGeofence_def calculateDistance_same)
  have ev: "evaluated kid (noon 1) ?s = [quiet]"
    using h3 by (simp add: evaluated_filter evaluated_def quiet_def zone_def kid_family
          isGeofenceActiveNow_def truthy_def)
  have ids: "\<And>e. e \<in> set (events (response (check kid 0 0 (noon 1) (ids 1) ?s))) \<Longrightarrow>
               re_geofenceId e = gf_id quiet"
    using newSummaries_ids [of _ "noon 1" _ 0 0 "[quiet]"] by (simp add: check_family h1 ev)
  have rids: "\<And>e. e \<in> set (geofenceEvents (storeAfter (check kid 0 0 (noon 1) (ids 1) ?s))) \<Longrightarrow>
               ev_geofenceId e = gf_id quiet"
    using newRows_ids [of _ kid 0 0 "noon 1" "ids 1" _ 0 "[quiet]"] by (simp add: check_family h1 ev)
  have "events (response (check kid 0 0 (noon 1) (ids 1) ?s)) = []"
    using notifyEnter_off_zone_without_event [OF h1 h2 h3 h4 h5, of "ids 1"] ids
    by (simp add: filter_empty_conv)
  moreover have "geofenceEvents (storeAfter (check kid 0 0 (noon 1) (ids 1) ?s)) = []"
    using notifyEnter_off_zone_without_event [OF h1 h2 h3 h4 h5, of "ids 1"] rids
    by (simp add: filter_empty_conv)
  moreover have "''Park'' \<in> set (currentZones (response (check kid 0 0 (noon 1) (ids 1) ?s)))"
    using notifyEnter_off_zone_without_event [OF h1 h2 h3 h4 h5, of "ids 1"]
    by (simp add: quiet_def zone_def)
  ultimately show ?thesis by simp
qed

text \<open>
  C7 (scope gating): a geofence whose \<open>childId\<close> is the id of another child is not
  applicable to the caller: the outcome of the evaluation is the one the directory
  without it gives, and (ids being the primary key) no event of the response and no
  appended row carries its id. Every geofence the loop evaluates has \<open>childId\<close> unset
  (null, or the empty string, which JavaScript takes for unset) or equal to the caller's
  id.
\<close>

theorem other_childs_geofence_not_evaluated:
  assumes "gf_childId g = Some a" and "a \<noteq> []" and "a \<noteq> u_id u"
  shows "g \<notin> set (applicableGeofences u gs) \<and>
         response (check u latitude longitude now generateId (withoutGeofence g s)) =
           response (check u latitude longitude now generateId s) \<and>
         geofenceEvents (storeAfter (check u latitude longitude now generateId (withoutGeofence g s))) =
           geofenceEvents (storeAfter (check u latitude longitude now generateId s)) \<and>
         (distinct (map gf_id (geofences s)) \<and> g \<in> set (geofences s) \<longrightarrow>
            (\<forall>e \<in> set (events (response (check u latitude longitude now generateId s))).
               re_geofenceId e \<noteq> gf_id g) \<and>
            (\<forall>row \<in> set (drop (length (geofenceEvents s))
                 (geofenceEvents (storeAfter (check u latitude longitude now generateId s)))).
               ev_geofenceId row \<noteq> gf_id g)) \<and>
         (\<forall>g' \<in> set (activeGeofences now
                        (applicableGeofences u (familyGeofences (the (u_familyId u)) s))).
            gf_childId g' = None \<or> gf_childId g' = Some [] \<or> gf_childId g' = Some (u_id u))"
proof -
  have na: "\<And>gs. g \<notin> set (applicableGeofences u gs)"
    using assms by (simp add: applicableGeofences_def truthy_def)
  have ne: "g \<notin> set (evaluated u now s)"
    using assms by (simp add: evaluated_filter truthy_def)
  have only: "\<forall>g' \<in> set (activeGeofences now
                        (applicableGeofences u (familyGeofences (the (u_familyId u)) s))).
            gf_childId g' = None \<or> gf_childId g' = Some [] \<or> gf_childId g' = Some (u_id u)"
    by (auto simp: activeGeofences_def applicableGeofences_def truthy_def split: option.splits)
  show ?thesis
    using na check_without [OF ne] not_evaluated_no_trace [OF ne] only
    by (intro conjI impI) simp_all
qed

theorem other_childs_geofence_not_evaluated_witness:
  "response (check kid 0 0 (noon 1) (ids 1) \<lparr>geofences = [sisters], geofenceEvents = []\<rparr>) =
     \<lparr>events = [], currentZones = []\<rparr> \<and>
   geofenceEvents (storeAfter (check kid 0 0 (noon 1) (ids 1)
      \<lparr>geofences = [sisters], geofenceEvents = []\<rparr>)) = [] \<and>
   isInsideGeofence 0 0 (gf_latitude sisters) (gf_longitude sisters) (real_of_int (gf_radius sisters))"
proof -
  let ?s = "\<lparr>geofences = [sisters], geofenceEvents = []\<rparr>"
  have h: "gf_childId sisters = Some ''sis''" "''sis'' \<noteq> []" "''sis'' \<noteq> u_id kid"
    by (simp_all add: sisters_def kid_def)
  have w: "withoutGeofence sisters ?s = \<lparr>geofences = [], geofenceEvents = []\<rparr>"
    by (simp add: withoutGeofence_def)
  have e: "evaluated kid (noon 1) \<lparr>geofences = [], geofenceEvents = []\<rparr> = []"
    by (simp add: evaluated_filter)
  have r: "response (check kid 0 0 (noon 1) (ids 1) \<lparr>geofences = [], geofenceEvents = []\<rparr>) =
             \<lparr>events = [], currentZones = []\<rparr>"
          "geofenceEvents (storeAfter (check kid 0 0 (noon 1) (ids 1)
             \<lparr>geofences = [], geofenceEvents = []\<rparr>)) = []"
    by (simp_all add: check_family kid_family e)
  have i: "isInsideGeofence 0 0 (gf_latitude sisters) (gf_longitude sisters)
             (real_of_int (gf_radius sisters))"
    by (simp add: sisters_def zone_def isInsideGeofence_def calculateDistance_same)
  show ?thesis
    using other_childs_geofence_not_evaluated [OF h, of "[]" 0 0 "noon 1" "ids 1" ?s] r i
    unfolding w by simp
qed

text \<open>
  C8 (family-less child): a caller whose \<open>familyId\<close> is null gets the success response
  with no events and no zones; the handler sends no statement to the database and the
  store is unchanged.
\<close>

theorem no_family_short_circuit:
  "u_familyId u = None \<Longrightarrow>
     response (check u latitude longitude now generateId s) = \<lparr>events = [], currentZones = []\<rparr> \<and>
     statements (check u latitude longitude now generateId s) = [] \<and>
     storeAfter (check u latitude longitude now generateId s) = s"
  by (simp add: check_def truthy_def response_def statements_def storeAfter_def)

theorem no_family_short_circuit_witness:
  "u_familyId orphan = None \<and>
   response (check orphan 0 0 (noon 1) (ids 1) twoZones) = \<lparr>events = [], currentZones = []\<rparr> \<and>
   statements (check orphan 0 0 (noon 1) (ids 1) twoZones) = [] \<and>
   storeAfter (check orphan 0 0 (noon 1) (ids 1) twoZones) = twoZones"
proof -
  have h: "u_familyId orphan = None" by (simp add: orphan_def)
  show ?thesis
    using h no_family_short_circuit [OF h, of 0 0 "noon 1" "ids 1" twoZones] by simp
qed

text \<open>
  C9 (frame condition): a call of the handler leaves the geofence table and every other
  table as they were and keeps the existing event rows in place; it only appends event
  rows, one per insert statement, and sends no update or delete.
\<close>

theorem check_only_appends_events:
  "geofences (storeAfter (check u latitude longitude now generateId s)) = geofences s \<and>
   store.more (storeAfter (check u latitude longitude now generateId s)) = store.more s \<and>
   take (length (geofenceEvents s))
     (geofenceEvents (storeAfter (check u latitude longitude now generateId s))) = geofenceEvents s \<and>
   set (statements (check u latitude longitude now generateId s)) \<subseteq>
     {Select Geofences, Select GeofenceEvents, Insert GeofenceEvents} \<and>
   length (filter (\<lambda>op. op = Insert GeofenceEvents)
             (statements (check u latitude longitude now generateId s))) =
     length (geofenceEvents (storeAfter (check u latitude longitude now generateId s))) -
     length (geofenceEvents s)"
proof (cases "truthy (u_familyId u)")
  case True
  then show ?thesis by (auto simp: check_family)
next
  case False
  then show ?thesis by (simp add: check_no_family_parts)
qed

theorem check_only_appends_events_witness:
  "geofences (storeAfter (check kid (1 / 200) 0 (noon 4) (ids 4) walk3)) = [south, north] \<and>
   take 3 (geofenceEvents (storeAfter (check kid (1 / 200) 0 (noon 4) (ids 4) walk3))) =
     geofenceEvents walk3 \<and>
   length (geofenceEvents (storeAfter (check kid (1 / 200) 0 (noon 4) (ids 4) walk3))) = 4 \<and>
   length (filter (\<lambda>op. op = Insert GeofenceEvents)
             (statements (check kid (1 / 200) 0 (noon 4) (ids 4) walk3))) = 1"
proof -
  have len: "length (geofenceEvents walk3) = 3" "geofences walk3 = [south, north]"
    by (simp_all add: walk3_eq)
  have after: "length (geofenceEvents (storeAfter (check kid (1 / 200) 0 (noon 4) (ids 4) walk3))) = 4"
    using walk4_eq by (simp add: walk4_def)
  show ?thesis
    using check_only_appends_events [of kid "1 / 200" 0 "noon 4" "ids 4" walk3] len after
    by simp
qed

text \<open>
  C10 (\<open>currentZones\<close> is history-independent): with the same caller, point, directory
  and clock, any two event logs (and any ids) give the same \<open>currentZones\<close>: the names
  of the active, applicable, schedule-passing geofences that contain the point, in table
  order. The notification flags play no part.
\<close>

theorem currentZones_ignores_history:
  "currentZones (response (check u latitude longitude now generateId1 (s\<lparr>geofenceEvents := log1\<rparr>))) =
   currentZones (response (check u latitude longitude now generateId2 (s\<lparr>geofenceEvents := log2\<rparr>))) \<and>
   currentZones (response (check u latitude longitude now generateId1 s)) =
     (if truthy (u_familyId u)
      then map gf_name
             (filter (\<lambda>g. isInsideGeofence latitude longitude (gf_latitude g) (gf_longitude g)
                             (real_of_int (gf_radius g)))
                (activeGeofences now
                   (applicableGeofences u (familyGeofences (the (u_familyId u)) s))))
      else []) \<and>
   currentZones (response (check u latitude longitude now generateId1
       (s\<lparr>geofences := map (\<lambda>g. g\<lparr>gf_notifyEnter := ne g, gf_notifyExit := nx g\<rparr>) (geofences s)\<rparr>))) =
   currentZones (response (check u latitude longitude now generateId1 s))"
proof (cases "truthy (u_familyId u)")
  case True
  have flags:
    "map gf_name (filter (inside latitude longitude)
       (evaluated u now (s\<lparr>geofences := map (\<lambda>g. g\<lparr>gf_notifyEnter := ne g, gf_notifyExit := nx g\<rparr>) (geofences s)\<rparr>))) =
     map gf_name (filter (inside latitude longitude) (evaluated u now s))"
    by (simp add: evaluated_filter filter_map o_def inside_def)
  show ?thesis
    using True flags
    by (simp add: check_family)
       (simp add: evaluated_def inside_fun)
next
  case False
  then show ?thesis by (simp add: check_no_family_parts)
qed

theorem currentZones_ignores_history_witness:
  "currentZones (response (check kid (1 / 200) 0 (noon 5) (ids 5) walk4)) = [''South'', ''North''] \<and>
   currentZones (response (check kid (1 / 200) 0 (noon 5) (ids 5) (walk4\<lparr>geofenceEvents := []\<rparr>))) =
     [''South'', ''North'']"
proof -
  have a: "currentZones (response (check kid (1 / 200) 0 (noon 5) (ids 5) walk4)) = [''South'', ''North'']"
    by (simp add: walk5_response)
  have b: "currentZones (response (check kid (1 / 200) 0 (noon 5) (ids 5)
              (walk4\<lparr>geofenceEvents := geofenceEvents walk4\<rparr>))) =
           currentZones (response (check kid (1 / 200) 0 (noon 5) (ids 5)
              (walk4\<lparr>geofenceEvents := []\<rparr>)))"
    using currentZones_ignores_history
      [where u = kid and latitude = "1 / 200" and longitude = 0 and now = "noon 5"
         and ?generateId1.0 = "ids 5" and ?generateId2.0 = "ids 5" and s = walk4
         and ?log1.0 = "geofenceEvents walk4" and ?log2.0 = "[]"]
    by (rule conjunct1)
  show ?thesis using a b by simp
qed

end
